theory Spec2Isabelle
  imports Main "HOL-Library.Sublist"
begin

section \<open>Go library functions used by package archive\<close>

text \<open>
  A Go string is a sequence of bytes; it is modelled as a \<open>string\<close> (a list of 8-bit
  characters). The library functions below are not part of the package: each is modelled
  from its documented behaviour, to the extent the package uses it.
\<close>

subsection \<open>Package strings\<close>

text \<open>
  \<open>strings.ToLower\<close>: the bytes \<open>A\<close>..\<open>Z\<close> are moved to \<open>a\<close>..\<open>z\<close> (\<open>c += 'a' - 'A'\<close>),
  every other byte is kept. This is what Go does on a string of ASCII bytes. On a string
  with a byte from 0x80 on, Go lowers the letters of every script, rune by rune; the
  model keeps such bytes as they are, so it is exact on ASCII filenames.
\<close>

definition toLowerByte :: "char \<Rightarrow> char" where
  "toLowerByte c =
     (let n = (of_char c :: nat)
      in if 65 \<le> n \<and> n \<le> 90 then char_of (n + 32) else c)"

definition ToLower :: "string \<Rightarrow> string" where
  "ToLower s = map toLowerByte s"

text \<open>\<open>strings.Join(elems, sep)\<close>.\<close>

fun Join :: "string list \<Rightarrow> string \<Rightarrow> string" where
  "Join [] sep = []"
| "Join [x] sep = x"
| "Join (x # y # ys) sep = x @ sep @ Join (y # ys) sep"

text \<open>
  \<open>strings.Replace(s, old, new, -1)\<close>: every non-overlapping occurrence of \<open>old\<close>, found
  from the left, is replaced by \<open>new\<close>. With an empty \<open>old\<close> Go inserts \<open>new\<close> before every
  character and at the end.
\<close>

fun ReplaceFrom :: "string \<Rightarrow> string \<Rightarrow> string \<Rightarrow> string" where
  "ReplaceFrom [] old new = []"
| "ReplaceFrom (c # cs) old new =
     (if prefix old (c # cs)
      then new @ ReplaceFrom (drop (length old - 1) cs) old new
      else c # ReplaceFrom cs old new)"

definition Replace :: "string \<Rightarrow> string \<Rightarrow> string \<Rightarrow> string" where
  "Replace s old new =
     (if old = [] then new @ concat (map (\<lambda>c. c # new) s) else ReplaceFrom s old new)"

subsection \<open>Package fmt\<close>

text \<open>
  \<open>fmt.Sprintf(format, arg)\<close> for a format with one verb, \<open>%s\<close> or \<open>%v\<close>, and one
  argument already rendered as a string: the first verb is replaced by the argument.
  Every format of the package has this shape.
\<close>

fun Sprintf :: "string \<Rightarrow> string \<Rightarrow> string" where
  "Sprintf (c # v # rest) arg =
     (if c = CHR ''%'' \<and> (v = CHR ''s'' \<or> v = CHR ''v'')
      then arg @ rest
      else c # Sprintf (v # rest) arg)"
| "Sprintf [c] arg = [c]"
| "Sprintf [] arg = []"

subsection \<open>Package regexp\<close>

text \<open>
  The syntax tree of a regular expression, for the operators that the package's
  expressions are built from: a literal byte, \<open>.\<close> (any byte but newline), \<open>$\<close> (end of
  text, as no flag is set), concatenation, alternation and a numbered capturing group.
\<close>

datatype Regexp =
    Lit char
  | AnyCharNotNL
  | EndText
  | Concat "Regexp list"
  | Alternate "Regexp list"
  | Capture nat Regexp

text \<open>
  The parser reads the expression from the left with a stack of open groups. A frame
  holds the number of its group (0 at top level), the alternatives already closed by
  \<open>|\<close>, and the items of the alternative being read.
\<close>

type_synonym frame = "nat \<times> Regexp list \<times> Regexp list"

definition mkConcat :: "Regexp list \<Rightarrow> Regexp" where
  "mkConcat items = (case items of [r] \<Rightarrow> r | _ \<Rightarrow> Concat items)"

definition mkAlternate :: "Regexp list \<Rightarrow> Regexp" where
  "mkAlternate alts = (case alts of [r] \<Rightarrow> r | _ \<Rightarrow> Alternate alts)"

definition closeFrame :: "Regexp list \<Rightarrow> Regexp list \<Rightarrow> Regexp" where
  "closeFrame alts items = mkAlternate (alts @ [mkConcat items])"

text \<open>
  After a backslash, Go takes an ASCII character that is neither a letter nor a digit
  as itself.
\<close>

definition isalnum :: "char \<Rightarrow> bool" where
  "isalnum c =
     (let n = (of_char c :: nat)
      in (48 \<le> n \<and> n \<le> 57) \<or> (65 \<le> n \<and> n \<le> 90) \<or> (97 \<le> n \<and> n \<le> 122))"

definition escapedLiteral :: "char \<Rightarrow> bool" where
  "escapedLiteral c \<longleftrightarrow> (of_char c :: nat) < 128 \<and> \<not> isalnum c"

text \<open>
  \<open>parse\<close> yields \<open>None\<close> for an expression that Go rejects (an unbalanced parenthesis, a
  trailing backslash) and for one that uses an operator outside the tree above
  (repetition, character classes, \<open>^\<close>, escapes of letters and digits).
\<close>

fun parse :: "string \<Rightarrow> nat \<Rightarrow> frame list \<Rightarrow> Regexp option" where
  "parse [] n stack =
     (case stack of
        [(g, alts, items)] \<Rightarrow> Some (closeFrame alts items)
      | _ \<Rightarrow> None)"
| "parse (c # cs) n stack =
     (case stack of
        [] \<Rightarrow> None
      | (g, alts, items) # below \<Rightarrow>
          if c = CHR ''('' then parse cs (Suc n) ((Suc n, [], []) # stack)
          else if c = CHR '')'' then
            (case below of
               [] \<Rightarrow> None
             | (g', alts', items') # below' \<Rightarrow>
                 parse cs n ((g', alts', items' @ [Capture g (closeFrame alts items)]) # below'))
          else if c = CHR ''|'' then parse cs n ((g, alts @ [mkConcat items], []) # below)
          else if c = CHR ''$'' then parse cs n ((g, alts, items @ [EndText]) # below)
          else if c = CHR ''.'' then parse cs n ((g, alts, items @ [AnyCharNotNL]) # below)
          else if c = CHR 0x5C then
            (case cs of
               [] \<Rightarrow> None
             | e # cs' \<Rightarrow>
                 if escapedLiteral e then parse cs' n ((g, alts, items @ [Lit e]) # below) else None)
          else if c \<in> set ''*+?[]{}^'' then None
          else parse cs n ((g, alts, items @ [Lit c]) # below))"

text \<open>
  \<open>regexp.MustCompile\<close> panics when the expression does not compile: \<open>None\<close>.
\<close>

definition MustCompile :: "string \<Rightarrow> Regexp option" where
  "MustCompile str = parse str 0 [(0, [], [])]"

text \<open>
  Matching by backtracking: \<open>rmatch r (s, caps)\<close> lists, in order of preference, the ways
  \<open>r\<close> matches at the front of \<open>s\<close>, each as the text left over and the captures made.
\<close>

type_synonym mstate = "string \<times> (nat \<times> string) list"

fun rmatch :: "Regexp \<Rightarrow> mstate \<Rightarrow> mstate list" where
  "rmatch (Lit c) (s, caps) =
     (case s of [] \<Rightarrow> [] | x # xs \<Rightarrow> if x = c then [(xs, caps)] else [])"
| "rmatch AnyCharNotNL (s, caps) =
     (case s of [] \<Rightarrow> [] | x # xs \<Rightarrow> if x \<noteq> CHR 0x0A then [(xs, caps)] else [])"
| "rmatch EndText (s, caps) = (if s = [] then [(s, caps)] else [])"
| "rmatch (Concat rs) st = fold (\<lambda>r sts. concat (map (rmatch r) sts)) rs [st]"
| "rmatch (Alternate rs) st = concat (map (\<lambda>r. rmatch r st) rs)"
| "rmatch (Capture g r) (s, caps) =
     map (\<lambda>(s', caps'). (s', (g, take (length s - length s') s) # caps')) (rmatch r (s, caps))"

text \<open>The leftmost position of the text at which the expression matches.\<close>

fun search :: "Regexp \<Rightarrow> string \<Rightarrow> (string \<times> (nat \<times> string) list) option" where
  "search re [] =
     (case rmatch re ([], []) of
        [] \<Rightarrow> None
      | (rest, caps) # _ \<Rightarrow> Some ([], caps))"
| "search re (c # cs) =
     (case rmatch re (c # cs, []) of
        [] \<Rightarrow> search re cs
      | (rest, caps) # _ \<Rightarrow> Some (take (length (c # cs) - length rest) (c # cs), caps))"

fun NumSubexp :: "Regexp \<Rightarrow> nat" where
  "NumSubexp (Concat rs) = sum_list (map NumSubexp rs)"
| "NumSubexp (Alternate rs) = sum_list (map NumSubexp rs)"
| "NumSubexp (Capture g r) = Suc (NumSubexp r)"
| "NumSubexp r = 0"

text \<open>
  \<open>FindStringSubmatch\<close>: the text of the leftmost match followed by the text of each
  capturing group (empty for a group that took no part); the empty list, Go's \<open>nil\<close>,
  when there is no match.
\<close>

definition FindStringSubmatch :: "Regexp \<Rightarrow> string \<Rightarrow> string list" where
  "FindStringSubmatch re s =
     (case search re s of
        None \<Rightarrow> []
      | Some (whole, caps) \<Rightarrow>
          whole # map (\<lambda>g. case map_of caps g of None \<Rightarrow> [] | Some t \<Rightarrow> t)
                      [1 ..< Suc (NumSubexp re)])"

section \<open>Package archive\<close>

subsection \<open>Archive types\<close>

text \<open>\<open>type Type uint\<close> with the constants \<open>Tar Type = iota + 1\<close>, ...\<close>

type_synonym Type = nat

definition Tar :: Type where "Tar = 1"

definition TarBz2 :: Type where "TarBz2 = 2"

definition TarGz :: Type where "TarGz = 3"

definition TarXz :: Type where "TarXz = 4"

definition Zip :: Type where "Zip = 5"

definition Type_String :: "Type \<Rightarrow> string" where
  "Type_String t =
     (if t = Tar then ''Tar''
      else if t = TarBz2 then ''TarBz2''
      else if t = TarGz then ''TarGz''
      else if t = TarXz then ''TarXz''
      else if t = Zip then ''Zip''
      else [])"

subsection \<open>Errors\<close>

text \<open>
  A Go \<open>error\<close> value: the package's own \<open>ErrUnknownType\<close>, the library's \<open>io.EOF\<close>, an
  error made by \<open>fmt.Errorf\<close> (it carries its message only), or any other error of the
  operating system, a decoder or a callback, with a tag for its identity and its message.
\<close>

datatype error =
    ErrUnknownType
  | EOF
  | fmtError string
  | foreignError nat string

fun Error :: "error \<Rightarrow> string" where
  "Error ErrUnknownType = ''archive: unable to determine type''"
| "Error EOF = ''EOF''"
| "Error (fmtError msg) = msg"
| "Error (foreignError tag msg) = msg"

definition Errorf :: "string \<Rightarrow> error \<Rightarrow> error" where
  "Errorf format err = fmtError (Sprintf format (Error err))"

definition fmtErrArchiveOpen :: string where
  "fmtErrArchiveOpen = ''archive: failed to open archive: %v''"

definition fmtErrNewGzReader :: string where
  "fmtErrNewGzReader = ''archive: failed to gz reader: %v''"

definition fmtErrNewXzReader :: string where
  "fmtErrNewXzReader = ''archive: failed to xz reader: %v''"

subsection \<open>The type table\<close>

record typeInfo =
  extensions :: "string list"
  regex :: string

text \<open>
  The package variable \<open>typeInfoMap\<close> is a Go map. \<open>init\<close> replaces whatever it held by a
  new map with five entries.
\<close>

type_synonym typeInfoMap = "Type \<rightharpoonup> typeInfo"

definition init :: "typeInfoMap \<Rightarrow> typeInfoMap" where
  "init old =
     (Map.empty
        (Tar \<mapsto> \<lparr>extensions = [''.tar''], regex = []\<rparr>,
         TarBz2 \<mapsto> \<lparr>extensions = [''.tar.bz2'', ''.tar.bzip2'', ''.tbz'', ''.tbz2''], regex = []\<rparr>,
         TarGz \<mapsto> \<lparr>extensions = [''.tar.gz'', ''.tgz''], regex = []\<rparr>,
         TarXz \<mapsto> \<lparr>extensions = [''.tar.xz'', ''.txz''], regex = []\<rparr>,
         Zip \<mapsto> \<lparr>extensions = [''.zip''], regex = []\<rparr>))"

definition makeRegex :: "string list \<Rightarrow> string" where
  "makeRegex exts =
     (let r1 = Join exts ''|'';
          r2 = Replace r1 ''.'' [CHR 0x5C, CHR ''.'']
      in Sprintf ''(%s)$'' r2)"

subsection \<open>DetermineType\<close>

text \<open>
  \<open>for archType, info := range typeInfoMap\<close> visits the keys of the map in an order
  that Go does not fix; the order of one run is the parameter \<open>order\<close>. \<open>info\<close> is a copy
  of the entry, so the assignment to \<open>info.regex\<close> does not reach the map; the map is
  returned with the result to make that visible. A panic of \<open>MustCompile\<close> is the
  result \<open>None\<close>. A member of \<open>order\<close> that is no key of the map is passed over; an
  order of the range has none.
\<close>

fun DetermineType_range ::
  "typeInfoMap \<Rightarrow> string \<Rightarrow> Type list \<Rightarrow> (Type \<times> error option) option \<times> typeInfoMap" where
  "DetermineType_range tim f [] = (Some (0, Some ErrUnknownType), tim)"
| "DetermineType_range tim f (archType # rest) =
     (case tim archType of
        None \<Rightarrow> DetermineType_range tim f rest
      | Some info0 \<Rightarrow>
          (let info = (if regex info0 = [] then info0\<lparr>regex := makeRegex (extensions info0)\<rparr>
                       else info0)
           in case MustCompile (regex info) of
                None \<Rightarrow> (None, tim)
              | Some re \<Rightarrow>
                  (let m = FindStringSubmatch re f
                   in if length m \<noteq> 0 then (Some (archType, None), tim)
                      else DetermineType_range tim f rest)))"

definition DetermineType ::
  "typeInfoMap \<Rightarrow> Type list \<Rightarrow> string \<Rightarrow> (Type \<times> error option) option \<times> typeInfoMap" where
  "DetermineType tim order filename =
     (let f = ToLower filename in DetermineType_range tim f order)"

text \<open>An order in which \<open>range\<close> may visit the map: every key once.\<close>

definition rangeOrder :: "typeInfoMap \<Rightarrow> Type list \<Rightarrow> bool" where
  "rangeOrder tim order \<longleftrightarrow> distinct order \<and> set order = dom tim"

text \<open>
  The same loop, recording the types for which the body of the loop runs: the order in
  which the types are inspected during one call.
\<close>

fun DetermineType_inspected :: "typeInfoMap \<Rightarrow> string \<Rightarrow> Type list \<Rightarrow> Type list" where
  "DetermineType_inspected tim f [] = []"
| "DetermineType_inspected tim f (archType # rest) =
     (case tim archType of
        None \<Rightarrow> DetermineType_inspected tim f rest
      | Some info0 \<Rightarrow>
          (let info = (if regex info0 = [] then info0\<lparr>regex := makeRegex (extensions info0)\<rparr>
                       else info0)
           in case MustCompile (regex info) of
                None \<Rightarrow> [archType]
              | Some re \<Rightarrow>
                  (let m = FindStringSubmatch re f
                   in if length m \<noteq> 0 then [archType]
                      else archType # DetermineType_inspected tim f rest)))"

definition inspectedTypes :: "typeInfoMap \<Rightarrow> Type list \<Rightarrow> string \<Rightarrow> Type list" where
  "inspectedTypes tim order filename = DetermineType_inspected tim (ToLower filename) order"

subsection \<open>The walkers\<close>

text \<open>
  The walkers act on the world outside the package: the file system, the open files and
  decoders, and whatever a callback touches. That world is a state \<open>'w\<close> which every
  call takes and returns. The operating system and the decoding libraries are the
  fields of a record: \<open>'r\<close> are their readers (a \<open>*os.File\<close>, a decompressing reader,
  a \<open>*tar.Reader\<close>, a \<open>*zip.ReadCloser\<close>), \<open>'h\<close> is a \<open>*tar.Header\<close> and \<open>'z\<close> a
  \<open>*zip.File\<close>. A Go result \<open>(value, err)\<close> is a sum, \<open>Inl\<close> the error;
  \<open>zip.OpenReader\<close> yields the reader with its field \<open>File\<close>.
\<close>

record ('w, 'r, 'h, 'z) env =
  os_Open :: "string \<Rightarrow> 'w \<Rightarrow> (error + 'r) \<times> 'w"
  file_Close :: "'r \<Rightarrow> 'w \<Rightarrow> 'w"
  zip_OpenReader :: "string \<Rightarrow> 'w \<Rightarrow> (error + 'r \<times> 'z list) \<times> 'w"
  zip_Close :: "'r \<Rightarrow> 'w \<Rightarrow> 'w"
  bzip2_NewReader :: "'r \<Rightarrow> 'r"
  gzip_NewReader :: "'r \<Rightarrow> 'w \<Rightarrow> (error + 'r) \<times> 'w"
  gzip_Close :: "'r \<Rightarrow> 'w \<Rightarrow> 'w"
  xz_NewReader :: "'r \<Rightarrow> 'w \<Rightarrow> (error + 'r) \<times> 'w"
  tar_NewReader :: "'r \<Rightarrow> 'r"
  tar_Next :: "'r \<Rightarrow> 'w \<Rightarrow> (error + 'h) \<times> 'w"

text \<open>
  A callback returns an error or \<open>nil\<close> (\<open>None\<close>) and may change the world. A callback
  argument that is itself \<open>nil\<close> is \<open>None\<close>.
\<close>

type_synonym ('w, 'r, 'h) TarCallback = "'r \<Rightarrow> 'h \<Rightarrow> 'w \<Rightarrow> error option \<times> 'w"

type_synonym ('w, 'z) ZipCallback = "'z \<Rightarrow> 'w \<Rightarrow> error option \<times> 'w"

text \<open>
  What a walker leaves behind: the error it returns, the entries on which it invoked
  the callback, in order, and the world. The list of invocations is kept by the model
  only; it is how the properties below speak of the callback being invoked or not.
\<close>

type_synonym ('e, 'w) outcome = "error option \<times> 'e list \<times> 'w"

text \<open>\<open>for _, f := range r.File\<close> in \<open>WalkZip\<close>.\<close>

fun WalkZip_range ::
  "('w, 'z) ZipCallback option \<Rightarrow> 'z list \<Rightarrow> 'z list \<Rightarrow> 'w \<Rightarrow> ('z, 'w) outcome" where
  "WalkZip_range callback [] calls w = (None, calls, w)"
| "WalkZip_range callback (f # fs) calls w =
     (case callback of
        None \<Rightarrow> WalkZip_range callback fs calls w
      | Some cb \<Rightarrow>
          (case cb f w of
             (Some err, w') \<Rightarrow> (Some err, calls @ [f], w')
           | (None, w') \<Rightarrow> WalkZip_range callback fs (calls @ [f]) w'))"

text \<open>\<open>defer r.Close()\<close> runs when the walker returns.\<close>

definition WalkZip ::
  "('w, 'r, 'h, 'z) env \<Rightarrow> string \<Rightarrow> ('w, 'z) ZipCallback option \<Rightarrow> 'w \<Rightarrow> ('z, 'w) outcome" where
  "WalkZip env archivePath callback w =
     (case zip_OpenReader env archivePath w of
        (Inl err, w1) \<Rightarrow> (Some (Errorf fmtErrArchiveOpen err), [], w1)
      | (Inr (r, files), w1) \<Rightarrow>
          (case WalkZip_range callback files [] w1 of
             (res, calls, w2) \<Rightarrow> (res, calls, zip_Close env r w2)))"

text \<open>
  One turn of the loop of \<open>readTar\<close>, from the invocations so far and the world: it
  either leaves the function (\<open>Inl\<close>, on \<open>io.EOF\<close>, on another error of \<open>Next\<close>, or on
  an error of the callback) or goes round again (\<open>Inr\<close>).
\<close>

definition readTar_body ::
  "('w, 'r, 'h, 'z) env \<Rightarrow> 'r \<Rightarrow> ('w, 'r, 'h) TarCallback option \<Rightarrow> 'h list \<times> 'w
     \<Rightarrow> ('h, 'w) outcome + 'h list \<times> 'w" where
  "readTar_body env reader callback st =
     (case st of (calls, w) \<Rightarrow>
        (case tar_Next env reader w of
           (Inl err, w1) \<Rightarrow>
             if err = EOF then Inl (None, calls, w1) else Inl (Some err, calls, w1)
         | (Inr header, w1) \<Rightarrow>
             (case callback of
                None \<Rightarrow> Inr (calls, w1)
              | Some cb \<Rightarrow>
                  (case cb reader header w1 of
                     (Some err, w2) \<Rightarrow> Inl (Some err, calls @ [header], w2)
                   | (None, w2) \<Rightarrow> Inr (calls @ [header], w2)))))"

text \<open>
  The loop \<open>for { ... }\<close> ends only when \<open>Next\<close> or the callback returns an error; a
  reader that yields headers for ever keeps it running, and \<open>readTar\<close> is then \<open>None\<close>.
\<close>

partial_function (option) readTar ::
  "('w, 'r, 'h, 'z) env \<Rightarrow> 'r \<Rightarrow> ('w, 'r, 'h) TarCallback option \<Rightarrow> 'h list \<times> 'w
     \<Rightarrow> ('h, 'w) outcome option" where
  "readTar env reader callback st =
     (case readTar_body env reader callback st of
        Inl result \<Rightarrow> Some result
      | Inr st' \<Rightarrow> readTar env reader callback st')"

text \<open>
  The deferred calls of a walker run on the world in which its \<open>return\<close> leaves it.
\<close>

definition deferred :: "('w \<Rightarrow> 'w) \<Rightarrow> ('e, 'w) outcome option \<Rightarrow> ('e, 'w) outcome option" where
  "deferred close r = map_option (\<lambda>(res, calls, w). (res, calls, close w)) r"

definition WalkTar ::
  "('w, 'r, 'h, 'z) env \<Rightarrow> string \<Rightarrow> ('w, 'r, 'h) TarCallback option \<Rightarrow> 'w
     \<Rightarrow> ('h, 'w) outcome option" where
  "WalkTar env archivePath callback w =
     (case os_Open env archivePath w of
        (Inl err, w1) \<Rightarrow> Some (Some (Errorf fmtErrArchiveOpen err), [], w1)
      | (Inr file, w1) \<Rightarrow>
          deferred (file_Close env file)
            (readTar env (tar_NewReader env file) callback ([], w1)))"

definition WalkTarBzip2 ::
  "('w, 'r, 'h, 'z) env \<Rightarrow> string \<Rightarrow> ('w, 'r, 'h) TarCallback option \<Rightarrow> 'w
     \<Rightarrow> ('h, 'w) outcome option" where
  "WalkTarBzip2 env archivePath callback w =
     (case os_Open env archivePath w of
        (Inl err, w1) \<Rightarrow> Some (Some (Errorf fmtErrArchiveOpen err), [], w1)
      | (Inr file, w1) \<Rightarrow>
          (let reader = bzip2_NewReader env file
           in deferred (file_Close env file)
                (readTar env (tar_NewReader env reader) callback ([], w1))))"

text \<open>
  In \<open>WalkTarGz\<close> the deferred \<open>reader.Close()\<close> runs before the deferred
  \<open>file.Close()\<close>; \<open>WalkTarXz\<close> defers no call for its reader.
\<close>

definition WalkTarGz ::
  "('w, 'r, 'h, 'z) env \<Rightarrow> string \<Rightarrow> ('w, 'r, 'h) TarCallback option \<Rightarrow> 'w
     \<Rightarrow> ('h, 'w) outcome option" where
  "WalkTarGz env archivePath callback w =
     (case os_Open env archivePath w of
        (Inl err, w1) \<Rightarrow> Some (Some (Errorf fmtErrArchiveOpen err), [], w1)
      | (Inr file, w1) \<Rightarrow>
          (case gzip_NewReader env file w1 of
             (Inl err, w2) \<Rightarrow>
               deferred (file_Close env file) (Some (Some (Errorf fmtErrNewGzReader err), [], w2))
           | (Inr reader, w2) \<Rightarrow>
               deferred (file_Close env file \<circ> gzip_Close env reader)
                 (readTar env (tar_NewReader env reader) callback ([], w2))))"

definition WalkTarXz ::
  "('w, 'r, 'h, 'z) env \<Rightarrow> string \<Rightarrow> ('w, 'r, 'h) TarCallback option \<Rightarrow> 'w
     \<Rightarrow> ('h, 'w) outcome option" where
  "WalkTarXz env archivePath callback w =
     (case os_Open env archivePath w of
        (Inl err, w1) \<Rightarrow> Some (Some (Errorf fmtErrArchiveOpen err), [], w1)
      | (Inr file, w1) \<Rightarrow>
          (case xz_NewReader env file w1 of
             (Inl err, w2) \<Rightarrow>
               deferred (file_Close env file) (Some (Some (Errorf fmtErrNewXzReader err), [], w2))
           | (Inr reader, w2) \<Rightarrow>
               deferred (file_Close env file)
                 (readTar env (tar_NewReader env reader) callback ([], w2))))"

subsection \<open>Sequences of calls\<close>

text \<open>
  A program calls the exported functions one after the other. The state it runs on is
  the package variable \<open>typeInfoMap\<close> and the world. The variable is not exported, so
  neither a callback nor a library reaches it: they act on the world alone, and a walker,
  whose code never names the variable, hands it on as it is. A run starts after \<open>init\<close>,
  which Go executes before any function of the package can be called.
\<close>

datatype ('w, 'r, 'h, 'z) call =
    CallDetermineType "Type list" string
  | CallWalkZip string "('w, 'z) ZipCallback option"
  | CallWalkTar string "('w, 'r, 'h) TarCallback option"
  | CallWalkTarBzip2 string "('w, 'r, 'h) TarCallback option"
  | CallWalkTarGz string "('w, 'r, 'h) TarCallback option"
  | CallWalkTarXz string "('w, 'r, 'h) TarCallback option"

fun exec ::
  "('w, 'r, 'h, 'z) env \<Rightarrow> ('w, 'r, 'h, 'z) call \<Rightarrow> typeInfoMap \<times> 'w
     \<Rightarrow> (typeInfoMap \<times> 'w) option" where
  "exec env (CallDetermineType order filename) (tim, w) =
     Some (snd (DetermineType tim order filename), w)"
| "exec env (CallWalkZip path callback) (tim, w) =
     (case WalkZip env path callback w of (res, calls, w') \<Rightarrow> Some (tim, w'))"
| "exec env (CallWalkTar path callback) (tim, w) =
     (case WalkTar env path callback w of
        None \<Rightarrow> None | Some (res, calls, w') \<Rightarrow> Some (tim, w'))"
| "exec env (CallWalkTarBzip2 path callback) (tim, w) =
     (case WalkTarBzip2 env path callback w of
        None \<Rightarrow> None | Some (res, calls, w') \<Rightarrow> Some (tim, w'))"
| "exec env (CallWalkTarGz path callback) (tim, w) =
     (case WalkTarGz env path callback w of
        None \<Rightarrow> None | Some (res, calls, w') \<Rightarrow> Some (tim, w'))"
| "exec env (CallWalkTarXz path callback) (tim, w) =
     (case WalkTarXz env path callback w of
        None \<Rightarrow> None | Some (res, calls, w') \<Rightarrow> Some (tim, w'))"

fun run ::
  "('w, 'r, 'h, 'z) env \<Rightarrow> ('w, 'r, 'h, 'z) call list \<Rightarrow> typeInfoMap \<times> 'w
     \<Rightarrow> (typeInfoMap \<times> 'w) option" where
  "run env [] st = Some st"
| "run env (c # cs) st =
     (case exec env c st of None \<Rightarrow> None | Some st' \<Rightarrow> run env cs st')"

subsection \<open>Auxiliary notions for the proofs\<close>

text \<open>
  The expression that \<open>makeRegex\<close> builds from a list of extensions compiles to the tree
  \<open>suffixRegexp\<close>: one capturing group holding an alternative of literal sequences,
  followed by the end of the text.
\<close>

definition litSeq :: "string \<Rightarrow> Regexp" where
  "litSeq e = Concat (map Lit e)"

definition suffixRegexp :: "string list \<Rightarrow> Regexp" where
  "suffixRegexp es = Concat [Capture 1 (mkAlternate (map litSeq es)), EndText]"

text \<open>
  \<open>typeMatches\<close>: the text ends with an extension of the type's entry. \<open>compiles\<close>: no
  entry carries an expression of its own, and the expression made from its extensions
  compiles to the tree above.
\<close>

definition typeMatches :: "typeInfoMap \<Rightarrow> string \<Rightarrow> Type \<Rightarrow> bool" where
  "typeMatches tim f T =
     (case tim T of None \<Rightarrow> False | Some info \<Rightarrow> list_ex (\<lambda>e. suffix e f) (extensions info))"

definition compiles :: "typeInfoMap \<Rightarrow> bool" where
  "compiles tim \<longleftrightarrow>
     (\<forall>T info. tim T = Some info \<longrightarrow>
        regex info = [] \<and>
        MustCompile (makeRegex (extensions info)) = Some (suffixRegexp (extensions info)))"

text \<open>
  \<open>readTar_iter\<close>: the invocations and the world after \<open>k\<close> full turns of the loop of
  \<open>readTar\<close>, \<open>None\<close> when the loop is left earlier. \<open>tar_entries\<close>: the headers that
  \<open>k\<close> calls of \<open>Next\<close> in a row yield, and the world after them, \<open>None\<close> when one of
  the calls returns an error.
\<close>

fun readTar_iter ::
  "('w, 'r, 'h, 'z) env \<Rightarrow> 'r \<Rightarrow> ('w, 'r, 'h) TarCallback option \<Rightarrow> nat \<Rightarrow> 'h list \<times> 'w
     \<Rightarrow> ('h list \<times> 'w) option" where
  "readTar_iter env reader callback 0 st = Some st"
| "readTar_iter env reader callback (Suc k) st =
     (case readTar_body env reader callback st of
        Inl result \<Rightarrow> None
      | Inr st' \<Rightarrow> readTar_iter env reader callback k st')"

fun tar_entries ::
  "('w, 'r, 'h, 'z) env \<Rightarrow> 'r \<Rightarrow> nat \<Rightarrow> 'w \<Rightarrow> ('h list \<times> 'w) option" where
  "tar_entries env reader 0 w = Some ([], w)"
| "tar_entries env reader (Suc k) w =
     (case tar_Next env reader w of
        (Inl err, w1) \<Rightarrow> None
      | (Inr header, w1) \<Rightarrow>
          (case tar_entries env reader k w1 of
             None \<Rightarrow> None
           | Some (headers, w2) \<Rightarrow> Some (header # headers, w2)))"

text \<open>
  A small world to run the walkers in. The state counts the headers read so far. Every
  path but \<open>nonexistent.tar\<close> and \<open>nonexistent.zip\<close> opens; the file at
  \<open>testdata/sample.tar.xz\<close> (reader 2) is no gzip stream, every other file (reader 1) is
  no xz stream; the reader of \<open>testdata/invalid.tar\<close> (reader 6) fails at its first
  header, every other archive holds the three entries of the sample.
\<close>

definition sampleEntries :: "string list" where
  "sampleEntries = [''sample/'', ''sample/text/'', ''sample/text/lorem.txt'']"

definition sampleEnv :: "(nat, nat, string, string) env" where
  "sampleEnv =
     \<lparr>os_Open = (\<lambda>path w.
        if path = ''nonexistent.tar''
        then (Inl (foreignError 1 ''open nonexistent.tar: no such file or directory''), w)
        else if path = ''testdata/sample.tar.xz'' then (Inr 2, w)
        else if path = ''testdata/invalid.tar'' then (Inr 6, w)
        else (Inr 1, w)),
      file_Close = (\<lambda>r w. w),
      zip_OpenReader = (\<lambda>path w.
        if path = ''nonexistent.zip''
        then (Inl (foreignError 1 ''open nonexistent.zip: no such file or directory''), w)
        else (Inr (3, sampleEntries), w)),
      zip_Close = (\<lambda>r w. w),
      bzip2_NewReader = (\<lambda>r. r),
      gzip_NewReader = (\<lambda>r w.
        if r = 2 then (Inl (foreignError 4 ''gzip: invalid header''), w) else (Inr r, w)),
      gzip_Close = (\<lambda>r w. w),
      xz_NewReader = (\<lambda>r w.
        if r = 1 then (Inl (foreignError 5 ''xz: file format not recognized''), w)
        else (Inr r, w)),
      tar_NewReader = (\<lambda>r. r),
      tar_Next = (\<lambda>r w.
        if r = 6 then (Inl (foreignError 7 ''archive/tar: invalid tar header''), w)
        else if w < length sampleEntries then (Inr (sampleEntries ! w), Suc w)
        else (Inl EOF, w))\<rparr>"

text \<open>Callbacks that fail on the entry \<open>sample/text/\<close>.\<close>

definition failOnText :: "(nat, nat, string) TarCallback" where
  "failOnText reader header w =
     (if header = ''sample/text/''
      then (Some (foreignError 9 ''an error in callback processing''), w)
      else (None, w))"

definition zipFailOnText :: "(nat, string) ZipCallback" where
  "zipFailOnText f w =
     (if f = ''sample/text/''
      then (Some (foreignError 9 ''an error in callback processing''), w)
      else (None, w))"

section \<open>Properties of DetermineType\<close>

subsection \<open>Matching the expression of a table entry\<close>

text \<open>
  A sequence of literals matches at the front of a text exactly when it is a prefix of
  it; hence \<open>suffixRegexp es\<close> matches somewhere in a text exactly when the text ends
  with a member of \<open>es\<close>.
\<close>

lemma fold_rmatch_Nil: "fold (\<lambda>r sts. concat (map (rmatch r) sts)) rs [] = []"
  by (induction rs) simp_all

lemma rmatch_litSeq:
  "rmatch (litSeq e) (t, caps) = (if prefix e t then [(drop (length e) t, caps)] else [])"
  unfolding litSeq_def rmatch.simps
proof (induction e arbitrary: t)
  case Nil
  show ?case by simp
next
  case (Cons c e)
  show ?case
  proof (cases t)
    case Nil
    then show ?thesis by (simp add: fold_rmatch_Nil)
  next
    case (Cons x xs)
    then show ?thesis using Cons.IH [of xs] by (simp add: fold_rmatch_Nil)
  qed
qed

lemma rmatch_alts:
  "set (rmatch (mkAlternate (map litSeq es)) (t, caps)) =
     {(drop (length e) t, caps) | e. e \<in> set es \<and> prefix e t}"
proof (cases "\<exists>e. es = [e]")
  case True
  then obtain e where "es = [e]" by blast
  then show ?thesis by (auto simp: mkAlternate_def rmatch_litSeq)
next
  case False
  then have "mkAlternate (map litSeq es) = Alternate (map litSeq es)"
    by (cases es; cases "tl es") (auto simp: mkAlternate_def)
  then show ?thesis by (auto simp: rmatch_litSeq)
qed

lemma fst_rmatch_Capture:
  "fst ` set (rmatch (Capture g r) (t, caps)) = fst ` set (rmatch r (t, caps))"
  by (force simp: image_iff split: prod.splits)

lemma concat_rmatch_EndText:
  "concat (map (rmatch EndText) sts) = filter (\<lambda>st. fst st = []) sts"
  by (induction sts) auto

lemma rmatch_then_EndText:
  "rmatch (Concat [r, EndText]) st = filter (\<lambda>st'. fst st' = []) (rmatch r st)"
  by (simp add: concat_rmatch_EndText)

lemma rmatch_suffixRegexp:
  "rmatch (suffixRegexp es) (t, caps) \<noteq> [] \<longleftrightarrow> t \<in> set es"
proof -
  let ?A = "mkAlternate (map litSeq es)"
  have "rmatch (suffixRegexp es) (t, caps) \<noteq> [] \<longleftrightarrow>
          [] \<in> fst ` set (rmatch (Capture 1 ?A) (t, caps))"
    unfolding suffixRegexp_def rmatch_then_EndText
    by (force simp: filter_empty_conv image_iff)
  also have "\<dots> \<longleftrightarrow> [] \<in> fst ` set (rmatch ?A (t, caps))"
    unfolding fst_rmatch_Capture ..
  also have "\<dots> \<longleftrightarrow> (\<exists>e \<in> set es. prefix e t \<and> drop (length e) t = [])"
    unfolding rmatch_alts by (auto simp: image_iff)
  also have "\<dots> \<longleftrightarrow> t \<in> set es"
    by (auto simp: prefix_def)
  finally show ?thesis .
qed

lemma search_iff:
  "search re s \<noteq> None \<longleftrightarrow> (\<exists>t. suffix t s \<and> rmatch re (t, []) \<noteq> [])"
proof (induction s)
  case Nil
  show ?case by (auto split: list.splits)
next
  case (Cons c cs)
  show ?case
  proof (cases "rmatch re (c # cs, [])")
    case Nil
    then show ?thesis using Cons.IH by (auto simp: suffix_Cons)
  next
    case (Cons st sts)
    then show ?thesis by (cases st) (auto intro!: exI[of _ "c # cs"])
  qed
qed

lemma FindStringSubmatch_iff:
  "length (FindStringSubmatch re s) \<noteq> 0 \<longleftrightarrow> search re s \<noteq> None"
  by (auto simp: FindStringSubmatch_def split: option.splits)

lemma FindStringSubmatch_suffixRegexp:
  "length (FindStringSubmatch (suffixRegexp es) f) \<noteq> 0 \<longleftrightarrow> (\<exists>e \<in> set es. suffix e f)"
  unfolding FindStringSubmatch_iff search_iff rmatch_suffixRegexp by blast

lemma FindStringSubmatch_suffixRegexp_Nil:
  "FindStringSubmatch (suffixRegexp es) f = [] \<longleftrightarrow> \<not> (\<exists>e \<in> set es. suffix e f)"
  using FindStringSubmatch_suffixRegexp [of es f] by blast

text \<open>The five expressions of the table compile, and to that tree.\<close>

lemma compile_Tar: "MustCompile (makeRegex [''.tar'']) = Some (suffixRegexp [''.tar''])"
  by code_simp

lemma compile_TarBz2: "MustCompile (makeRegex [''.tar.bz2'', ''.tar.bzip2'', ''.tbz'', ''.tbz2'']) = Some (suffixRegexp [''.tar.bz2'', ''.tar.bzip2'', ''.tbz'', ''.tbz2''])"
  by code_simp

lemma compile_TarGz: "MustCompile (makeRegex [''.tar.gz'', ''.tgz'']) = Some (suffixRegexp [''.tar.gz'', ''.tgz''])"
  by code_simp

lemma compile_TarXz: "MustCompile (makeRegex [''.tar.xz'', ''.txz'']) = Some (suffixRegexp [''.tar.xz'', ''.txz''])"
  by code_simp

lemma compile_Zip: "MustCompile (makeRegex [''.zip'']) = Some (suffixRegexp [''.zip''])"
  by code_simp

subsection \<open>The loop over the table\<close>

lemmas Type_defs = Tar_def TarBz2_def TarGz_def TarXz_def Zip_def

lemma init_Some:
  "init old T = Some info \<longleftrightarrow>
     (T = Tar \<and> info = \<lparr>extensions = [''.tar''], regex = []\<rparr>) \<or>
     (T = TarBz2 \<and> info = \<lparr>extensions = [''.tar.bz2'', ''.tar.bzip2'', ''.tbz'', ''.tbz2''], regex = []\<rparr>) \<or>
     (T = TarGz \<and> info = \<lparr>extensions = [''.tar.gz'', ''.tgz''], regex = []\<rparr>) \<or>
     (T = TarXz \<and> info = \<lparr>extensions = [''.tar.xz'', ''.txz''], regex = []\<rparr>) \<or>
     (T = Zip \<and> info = \<lparr>extensions = [''.zip''], regex = []\<rparr>)"
  by (auto simp: init_def Type_defs)

lemma dom_init: "dom (init old) = {Tar, TarBz2, TarGz, TarXz, Zip}"
  by (auto simp: init_def Type_defs)

lemma compiles_init: "compiles (init old)"
  unfolding compiles_def init_Some
  by (auto simp: compile_Tar compile_TarBz2 compile_TarGz compile_TarXz compile_Zip)

lemma DetermineType_range_find:
  assumes "compiles tim"
  shows "DetermineType_range tim f order =
           (case find (typeMatches tim f) order of
              None \<Rightarrow> (Some (0, Some ErrUnknownType), tim)
            | Some T \<Rightarrow> (Some (T, None), tim))"
proof (induction order)
  case Nil
  show ?case by simp
next
  case (Cons T rest)
  show ?case
  proof (cases "tim T")
    case None
    then show ?thesis using Cons.IH by (simp add: typeMatches_def)
  next
    case (Some info)
    with assms have c: "regex info = []"
      "MustCompile (makeRegex (extensions info)) = Some (suffixRegexp (extensions info))"
      by (auto simp: compiles_def)
    show ?thesis
      using Some c Cons.IH
      by (auto simp: typeMatches_def FindStringSubmatch_suffixRegexp_Nil list_ex_iff)
  qed
qed

lemma typeMatches_init:
  "typeMatches (init old) f T \<longleftrightarrow>
     (T = Tar \<and> suffix ''.tar'' f) \<or>
     (T = TarBz2 \<and> (suffix ''.tar.bz2'' f \<or> suffix ''.tar.bzip2'' f \<or> suffix ''.tbz'' f \<or> suffix ''.tbz2'' f)) \<or>
     (T = TarGz \<and> (suffix ''.tar.gz'' f \<or> suffix ''.tgz'' f)) \<or>
     (T = TarXz \<and> (suffix ''.tar.xz'' f \<or> suffix ''.txz'' f)) \<or>
     (T = Zip \<and> suffix ''.zip'' f)"
  by (auto simp: typeMatches_def init_def Type_defs)

lemma Cons_prefix_iff: "prefix (x # xs) ys \<longleftrightarrow> (\<exists>zs. ys = x # zs \<and> prefix xs zs)"
  by (cases ys) auto

lemma typeMatches_init_unique:
  assumes "typeMatches (init old) f T" "typeMatches (init old) f T'"
  shows "T = T'"
  using assms unfolding typeMatches_init suffix_to_prefix
  by (auto simp: Type_defs Cons_prefix_iff)

subsection \<open>Lowering\<close>




subsection \<open>The claims about DetermineType\<close>

lemma find_unique:
  assumes "T \<in> set order" "P T" "\<And>T'. P T' \<Longrightarrow> T' = T"
  shows "find P order = Some T"
proof (cases "find P order")
  case None
  with assms(1,2) show ?thesis by (auto simp: find_None_iff)
next
  case (Some T')
  then have "P T'" by (auto simp: find_Some_iff)
  with assms(3) Some show ?thesis by simp
qed






lemma typeMatches_init_registered:
  "typeMatches (init old) f T \<longleftrightarrow>
     (\<exists>e. (T, e) \<in> {(Tar, ''.tar''),
                    (TarBz2, ''.tar.bz2''), (TarBz2, ''.tar.bzip2''), (TarBz2, ''.tbz''), (TarBz2, ''.tbz2''),
                    (TarGz, ''.tar.gz''), (TarGz, ''.tgz''),
                    (TarXz, ''.tar.xz''), (TarXz, ''.txz''),
                    (Zip, ''.zip'')} \<and> suffix e f)"
  unfolding typeMatches_init
  by (simp add: conj_disj_distribR ex_disj_distrib) blast




text \<open>
  Claim C4. Any two orders in which the map may be ranged over give the same result
  (and the same table), because no lowered filename ends in registered extensions of two
  different types.
\<close>

theorem DetermineType_order_independent:
  assumes "rangeOrder (init old) order1" "rangeOrder (init old) order2"
  shows "DetermineType (init old) order1 filename = DetermineType (init old) order2 filename
       \<and> ((T, e) \<in> {(Tar, ''.tar''),
                    (TarBz2, ''.tar.bz2''), (TarBz2, ''.tar.bzip2''), (TarBz2, ''.tbz''), (TarBz2, ''.tbz2''),
                    (TarGz, ''.tar.gz''), (TarGz, ''.tgz''),
                    (TarXz, ''.tar.xz''), (TarXz, ''.txz''),
                    (Zip, ''.zip'')}
          \<and> (T', e') \<in> {(Tar, ''.tar''),
                    (TarBz2, ''.tar.bz2''), (TarBz2, ''.tar.bzip2''), (TarBz2, ''.tbz''), (TarBz2, ''.tbz2''),
                    (TarGz, ''.tar.gz''), (TarGz, ''.tgz''),
                    (TarXz, ''.tar.xz''), (TarXz, ''.txz''),
                    (Zip, ''.zip'')}
          \<and> suffix e (ToLower filename) \<and> suffix e' (ToLower filename) \<longrightarrow> T = T')"
proof (intro conjI impI)
  let ?f = "ToLower filename"
  let ?P = "typeMatches (init old) ?f"
  have "find ?P order1 = find ?P order2"
  proof (cases "\<exists>T. ?P T")
    case True
    then obtain T where T: "?P T" by blast
    then have "T \<in> dom (init old)"
      by (auto simp: typeMatches_def split: option.splits)
    with assms have "T \<in> set order1" "T \<in> set order2"
      by (simp_all add: rangeOrder_def)
    then have "find ?P order1 = Some T" "find ?P order2 = Some T"
      using T typeMatches_init_unique by (auto intro!: find_unique)
    then show ?thesis by simp
  next
    case False
    then have "find ?P order1 = None" "find ?P order2 = None"
      by (simp_all add: find_None_iff)
    then show ?thesis by simp
  qed
  then show "DetermineType (init old) order1 filename = DetermineType (init old) order2 filename"
    by (simp add: DetermineType_def DetermineType_range_find [OF compiles_init])
next
  assume a: "(T, e) \<in> {(Tar, ''.tar''),
                    (TarBz2, ''.tar.bz2''), (TarBz2, ''.tar.bzip2''), (TarBz2, ''.tbz''), (TarBz2, ''.tbz2''),
                    (TarGz, ''.tar.gz''), (TarGz, ''.tgz''),
                    (TarXz, ''.tar.xz''), (TarXz, ''.txz''),
                    (Zip, ''.zip'')}
          \<and> (T', e') \<in> {(Tar, ''.tar''),
                    (TarBz2, ''.tar.bz2''), (TarBz2, ''.tar.bzip2''), (TarBz2, ''.tbz''), (TarBz2, ''.tbz2''),
                    (TarGz, ''.tar.gz''), (TarGz, ''.tgz''),
                    (TarXz, ''.tar.xz''), (TarXz, ''.txz''),
                    (Zip, ''.zip'')}
          \<and> suffix e (ToLower filename) \<and> suffix e' (ToLower filename)"
  have "typeMatches (init old) (ToLower filename) T"
    unfolding typeMatches_init_registered
    by (rule exI [of _ e],
        rule conjI [OF a [THEN conjunct1] a [THEN conjunct2, THEN conjunct2, THEN conjunct1]])
  moreover have "typeMatches (init old) (ToLower filename) T'"
    unfolding typeMatches_init_registered
    by (rule exI [of _ e'],
        rule conjI [OF a [THEN conjunct2, THEN conjunct1]
                       a [THEN conjunct2, THEN conjunct2, THEN conjunct2]])
  ultimately show "T = T'" by (rule typeMatches_init_unique)
qed

text \<open>
  Claim C4 at the declared order and its reverse.
\<close>

theorem DetermineType_order_independent_witness:
  "rangeOrder (init Map.empty) [Tar, TarBz2, TarGz, TarXz, Zip]
   \<and> rangeOrder (init Map.empty) [Zip, TarXz, TarGz, TarBz2, Tar]
   \<and> DetermineType (init Map.empty) [Tar, TarBz2, TarGz, TarXz, Zip] ''x.tar.gz''
       = DetermineType (init Map.empty) [Zip, TarXz, TarGz, TarBz2, Tar] ''x.tar.gz''
   \<and> suffix ''.tar.gz'' (ToLower ''x.tar.gz'')"
proof -
  have o1: "rangeOrder (init Map.empty) [Tar, TarBz2, TarGz, TarXz, Zip]"
    by (auto simp: rangeOrder_def dom_init Type_defs)
  have o2: "rangeOrder (init Map.empty) [Zip, TarXz, TarGz, TarBz2, Tar]"
    by (auto simp: rangeOrder_def dom_init Type_defs)
  have l: "ToLower ''x.tar.gz'' = ''x.tar.gz''" by code_simp
  have s: "suffix ''.tar.gz'' (ToLower ''x.tar.gz'')"
    unfolding l by (simp add: suffix_to_prefix)
  note t = DetermineType_order_independent
             [OF o1 o2, of "''x.tar.gz''" TarGz "''.tar.gz''" TarGz "''.tar.gz''"]
  have "TarGz = TarGz"
    by (rule t [THEN conjunct2, THEN mp]) (simp add: s)
  then show ?thesis
    by (intro conjI o1 o2 s t [THEN conjunct1])
qed



lemma DetermineType_inspected_prefix:
  "set order \<subseteq> dom tim \<Longrightarrow> prefix (DetermineType_inspected tim f order) order"
  by (induction order) (auto simp: Let_def split: option.splits)

lemma DetermineType_inspected_result:
  "set order \<subseteq> dom tim \<Longrightarrow>
     (fst (DetermineType_range tim f order) = Some (T, None) \<longrightarrow>
        DetermineType_inspected tim f order \<noteq> [] \<and> last (DetermineType_inspected tim f order) = T)
   \<and> (fst (DetermineType_range tim f order) = Some (0, Some ErrUnknownType) \<longrightarrow>
        DetermineType_inspected tim f order = order)"
  by (induction order) (auto simp: Let_def split: option.splits)

text \<open>
  Claim C3, amended. The types are inspected in the order in which \<open>range\<close> yields the
  keys of the map, whichever it is: the inspected types are an initial segment of that
  order, ending with the type that is returned, and are the whole order when no type
  matches.
\<close>

theorem inspected_follows_range_order:
  assumes "rangeOrder tim order"
  shows "prefix (inspectedTypes tim order filename) order
       \<and> (fst (DetermineType tim order filename) = Some (T, None) \<longrightarrow>
            inspectedTypes tim order filename \<noteq> [] \<and> last (inspectedTypes tim order filename) = T)
       \<and> (fst (DetermineType tim order filename) = Some (0, Some ErrUnknownType) \<longrightarrow>
            inspectedTypes tim order filename = order)"
proof -
  from assms have s: "set order \<subseteq> dom tim" by (simp add: rangeOrder_def)
  show ?thesis
    unfolding inspectedTypes_def DetermineType_def Let_def
    using DetermineType_inspected_prefix [OF s, of "ToLower filename"]
      DetermineType_inspected_result [OF s, of "ToLower filename" T]
    by blast
qed

text \<open>
  Claim C3, amended, at an order that is not the declared one.
\<close>

theorem inspected_follows_range_order_witness:
  "rangeOrder (init Map.empty) [TarXz, Zip, Tar, TarGz, TarBz2]
   \<and> prefix (inspectedTypes (init Map.empty) [TarXz, Zip, Tar, TarGz, TarBz2] ''b.ZIP'')
            [TarXz, Zip, Tar, TarGz, TarBz2]
   \<and> fst (DetermineType (init Map.empty) [TarXz, Zip, Tar, TarGz, TarBz2] ''b.ZIP'') = Some (Zip, None)
   \<and> last (inspectedTypes (init Map.empty) [TarXz, Zip, Tar, TarGz, TarBz2] ''b.ZIP'') = Zip
   \<and> fst (DetermineType (init Map.empty) [TarXz, Zip, Tar, TarGz, TarBz2] ''b.txt'')
        = Some (0, Some ErrUnknownType)
   \<and> inspectedTypes (init Map.empty) [TarXz, Zip, Tar, TarGz, TarBz2] ''b.txt''
        = [TarXz, Zip, Tar, TarGz, TarBz2]"
proof -
  have o: "rangeOrder (init Map.empty) [TarXz, Zip, Tar, TarGz, TarBz2]"
    by (auto simp: rangeOrder_def dom_init Type_defs)
  have r1: "fst (DetermineType (init Map.empty) [TarXz, Zip, Tar, TarGz, TarBz2] ''b.ZIP'')
              = Some (Zip, None)"
    by code_simp
  have r2: "fst (DetermineType (init Map.empty) [TarXz, Zip, Tar, TarGz, TarBz2] ''b.txt'')
              = Some (0, Some ErrUnknownType)"
    by code_simp
  note t1 = inspected_follows_range_order [OF o, of "''b.ZIP''" Zip]
  note t2 = inspected_follows_range_order [OF o, of "''b.txt''" Zip]
  show ?thesis
    by (intro conjI o r1 r2 t1 [THEN conjunct1]
          t1 [THEN conjunct2, THEN conjunct1, THEN mp, OF r1, THEN conjunct2]
          t2 [THEN conjunct2, THEN conjunct2, THEN mp, OF r2])
qed

text \<open>
  Claim C3 as stated fails: ranging over the map from \<open>Zip\<close> on is an order Go allows,
  and for \<open>foo.zip\<close> it inspects \<open>Zip\<close> alone, which is no initial segment of the
  declared order; in the declared order the same call inspects all five types.
\<close>

theorem inspection_order_counterexample:
  "rangeOrder (init Map.empty) [Zip, Tar, TarBz2, TarGz, TarXz]
   \<and> inspectedTypes (init Map.empty) [Zip, Tar, TarBz2, TarGz, TarXz] ''foo.zip'' = [Zip]
   \<and> \<not> prefix [Zip] [Tar, TarBz2, TarGz, TarXz, Zip]
   \<and> rangeOrder (init Map.empty) [Tar, TarBz2, TarGz, TarXz, Zip]
   \<and> inspectedTypes (init Map.empty) [Tar, TarBz2, TarGz, TarXz, Zip] ''foo.zip''
        = [Tar, TarBz2, TarGz, TarXz, Zip]"
proof -
  have o1: "rangeOrder (init Map.empty) [Zip, Tar, TarBz2, TarGz, TarXz]"
    by (auto simp: rangeOrder_def dom_init Type_defs)
  have o2: "rangeOrder (init Map.empty) [Tar, TarBz2, TarGz, TarXz, Zip]"
    by (auto simp: rangeOrder_def dom_init Type_defs)
  have i1: "inspectedTypes (init Map.empty) [Zip, Tar, TarBz2, TarGz, TarXz] ''foo.zip'' = [Zip]"
    by code_simp
  have i2: "inspectedTypes (init Map.empty) [Tar, TarBz2, TarGz, TarXz, Zip] ''foo.zip''
              = [Tar, TarBz2, TarGz, TarXz, Zip]"
    by code_simp
  have p: "\<not> prefix [Zip] [Tar, TarBz2, TarGz, TarXz, Zip]"
    by (simp add: Type_defs)
  show ?thesis by (intro conjI o1 o2 i1 i2 p)
qed

section \<open>Properties of the walkers\<close>

text \<open>
  \<open>readTar\<close> returns as soon as a turn of its loop leaves it, and after \<open>k\<close> full turns
  it does what it does from the state reached.
\<close>

lemma readTar_exit:
  "readTar_body env reader callback st = Inl result \<Longrightarrow>
     readTar env reader callback st = Some result"
  by (subst readTar.simps) simp

lemma readTar_continue:
  "readTar_body env reader callback st = Inr st' \<Longrightarrow>
     readTar env reader callback st = readTar env reader callback st'"
  by (subst readTar.simps) simp

lemma readTar_iter_readTar:
  "readTar_iter env reader callback k st = Some st' \<Longrightarrow>
     readTar env reader callback st = readTar env reader callback st'"
proof (induction k arbitrary: st)
  case 0
  then show ?case by simp
next
  case (Suc k)
  then obtain st1 where b: "readTar_body env reader callback st = Inr st1"
    and i: "readTar_iter env reader callback k st1 = Some st'"
    by (auto split: sum.splits)
  from readTar_continue [OF b] Suc.IH [OF i] show ?case by simp
qed

lemma readTar_iter_nil_callback:
  "tar_entries env reader k w = Some (headers, w') \<Longrightarrow>
     readTar_iter env reader None k (calls, w) = Some (calls, w')"
proof (induction k arbitrary: w headers)
  case 0
  then show ?case by simp
next
  case (Suc k)
  then show ?case
    by (auto simp: readTar_body_def split: prod.splits sum.splits option.splits)
qed

lemma readTar_callback_error:
  assumes "readTar_iter env reader (Some cb) k ([], w0) = Some (calls, w1)"
    and "tar_Next env reader w1 = (Inr header, w2)"
    and "cb reader header w2 = (Some err, w3)"
  shows "readTar env reader (Some cb) ([], w0) = Some (Some err, calls @ [header], w3)"
proof -
  have "readTar_body env reader (Some cb) (calls, w1) = Inl (Some err, calls @ [header], w3)"
    using assms(2,3) by (simp add: readTar_body_def)
  then have "readTar env reader (Some cb) (calls, w1) = Some (Some err, calls @ [header], w3)"
    by (rule readTar_exit)
  with readTar_iter_readTar [OF assms(1)] show ?thesis by simp
qed

lemma readTar_nil_callback:
  assumes "tar_entries env reader k w0 = Some (headers, w1)"
    and "tar_Next env reader w1 = (Inl err, w2)"
  shows "readTar env reader None ([], w0) =
           Some (if err = EOF then None else Some err, [], w2)"
proof -
  have "readTar_body env reader None ([], w1) = Inl (if err = EOF then None else Some err, [], w2)"
    using assms(2) by (simp add: readTar_body_def)
  then have "readTar env reader None ([], w1) = Some (if err = EOF then None else Some err, [], w2)"
    by (rule readTar_exit)
  with readTar_iter_readTar [OF readTar_iter_nil_callback [OF assms(1), of "[]"]]
  show ?thesis by simp
qed

lemma WalkZip_range_calls:
  "WalkZip_range (Some cb) fs calls w = (None, calls', w') \<Longrightarrow> calls' = calls @ fs"
proof (induction fs arbitrary: calls w)
  case Nil
  then show ?case by simp
next
  case (Cons a fs)
  then obtain w1 where "cb a w = (None, w1)"
    and "WalkZip_range (Some cb) fs (calls @ [a]) w1 = (None, calls', w')"
    by (auto split: prod.splits option.splits)
  with Cons.IH [of "calls @ [a]" w1] show ?case by simp
qed

lemma WalkZip_range_append:
  "WalkZip_range (Some cb) pre calls w = (None, calls', w') \<Longrightarrow>
     WalkZip_range (Some cb) (pre @ fs) calls w = WalkZip_range (Some cb) fs calls' w'"
  by (induction pre arbitrary: calls w) (auto split: prod.splits option.splits)

lemma WalkZip_range_nil_callback: "WalkZip_range None fs calls w = (None, calls, w)"
  by (induction fs) auto

lemma Sprintf_fmtErrArchiveOpen:
  "Sprintf fmtErrArchiveOpen a = ''archive: failed to open archive: '' @ a"
  by (simp add: fmtErrArchiveOpen_def)

lemma Sprintf_fmtErrNewGzReader:
  "Sprintf fmtErrNewGzReader a = ''archive: failed to gz reader: '' @ a"
  by (simp add: fmtErrNewGzReader_def)

lemma Sprintf_fmtErrNewXzReader:
  "Sprintf fmtErrNewXzReader a = ''archive: failed to xz reader: '' @ a"
  by (simp add: fmtErrNewXzReader_def)

lemmas sample_defs = sampleEnv_def sampleEntries_def failOnText_def zipFailOnText_def
  readTar_body_def

text \<open>
  Claim C7. When, after any number of full turns of the loop, the callback returns an
  error on the entry just read, \<open>readTar\<close> returns that very error, and the last
  invocation of the callback is the one on that entry; so do \<open>WalkTar\<close>,
  \<open>WalkTarBzip2\<close>, \<open>WalkTarGz\<close> and \<open>WalkTarXz\<close> once the file is open (and the
  decoder made). \<open>WalkZip\<close>: when the callback returns \<open>nil\<close> on the entries \<open>pre\<close>
  and an error on the next entry \<open>f\<close>, that very error is returned and the callback has
  been invoked on \<open>pre\<close> and \<open>f\<close> only.
\<close>

theorem callback_error_stops_walk:
  "(readTar_iter env reader (Some cb) k ([], w0) = Some (calls, w1)
      \<and> tar_Next env reader w1 = (Inr header, w2)
      \<and> cb reader header w2 = (Some err, w3)
    \<longrightarrow> readTar env reader (Some cb) ([], w0) = Some (Some err, calls @ [header], w3)
      \<and> (os_Open env path w = (Inr file, w0) \<and> reader = tar_NewReader env file
           \<longrightarrow> WalkTar env path (Some cb) w
                 = Some (Some err, calls @ [header], file_Close env file w3))
      \<and> (os_Open env path w = (Inr file, w0)
           \<and> reader = tar_NewReader env (bzip2_NewReader env file)
           \<longrightarrow> WalkTarBzip2 env path (Some cb) w
                 = Some (Some err, calls @ [header], file_Close env file w3))
      \<and> (os_Open env path w = (Inr file, wo) \<and> gzip_NewReader env file wo = (Inr gz, w0)
           \<and> reader = tar_NewReader env gz
           \<longrightarrow> WalkTarGz env path (Some cb) w
                 = Some (Some err, calls @ [header], file_Close env file (gzip_Close env gz w3)))
      \<and> (os_Open env path w = (Inr file, wo) \<and> xz_NewReader env file wo = (Inr xz, w0)
           \<and> reader = tar_NewReader env xz
           \<longrightarrow> WalkTarXz env path (Some cb) w
                 = Some (Some err, calls @ [header], file_Close env file w3)))
   \<and> (zip_OpenReader env zpath z = (Inr (zr, pre @ f # post), z0)
      \<and> WalkZip_range (Some zcb) pre [] z0 = (None, zcalls, z1)
      \<and> zcb f z1 = (Some zerr, z2)
    \<longrightarrow> WalkZip env zpath (Some zcb) z = (Some zerr, pre @ [f], zip_Close env zr z2))"
proof (intro conjI impI; (elim conjE)?)
  assume "readTar_iter env reader (Some cb) k ([], w0) = Some (calls, w1)"
    "tar_Next env reader w1 = (Inr header, w2)" "cb reader header w2 = (Some err, w3)"
  then show "readTar env reader (Some cb) ([], w0) = Some (Some err, calls @ [header], w3)"
    by (rule readTar_callback_error)
next
  assume "readTar_iter env reader (Some cb) k ([], w0) = Some (calls, w1)"
    "tar_Next env reader w1 = (Inr header, w2)" "cb reader header w2 = (Some err, w3)"
  then have r: "readTar env reader (Some cb) ([], w0) = Some (Some err, calls @ [header], w3)"
    by (rule readTar_callback_error)
  assume "os_Open env path w = (Inr file, w0)" "reader = tar_NewReader env file"
  with r show "WalkTar env path (Some cb) w
                 = Some (Some err, calls @ [header], file_Close env file w3)"
    by (simp add: WalkTar_def deferred_def)
next
  assume "readTar_iter env reader (Some cb) k ([], w0) = Some (calls, w1)"
    "tar_Next env reader w1 = (Inr header, w2)" "cb reader header w2 = (Some err, w3)"
  then have r: "readTar env reader (Some cb) ([], w0) = Some (Some err, calls @ [header], w3)"
    by (rule readTar_callback_error)
  assume "os_Open env path w = (Inr file, w0)"
    "reader = tar_NewReader env (bzip2_NewReader env file)"
  with r show "WalkTarBzip2 env path (Some cb) w
                 = Some (Some err, calls @ [header], file_Close env file w3)"
    by (simp add: WalkTarBzip2_def deferred_def)
next
  assume "readTar_iter env reader (Some cb) k ([], w0) = Some (calls, w1)"
    "tar_Next env reader w1 = (Inr header, w2)" "cb reader header w2 = (Some err, w3)"
  then have r: "readTar env reader (Some cb) ([], w0) = Some (Some err, calls @ [header], w3)"
    by (rule readTar_callback_error)
  assume "os_Open env path w = (Inr file, wo)" "gzip_NewReader env file wo = (Inr gz, w0)"
    "reader = tar_NewReader env gz"
  with r show "WalkTarGz env path (Some cb) w
                 = Some (Some err, calls @ [header], file_Close env file (gzip_Close env gz w3))"
    by (simp add: WalkTarGz_def deferred_def)
next
  assume "readTar_iter env reader (Some cb) k ([], w0) = Some (calls, w1)"
    "tar_Next env reader w1 = (Inr header, w2)" "cb reader header w2 = (Some err, w3)"
  then have r: "readTar env reader (Some cb) ([], w0) = Some (Some err, calls @ [header], w3)"
    by (rule readTar_callback_error)
  assume "os_Open env path w = (Inr file, wo)" "xz_NewReader env file wo = (Inr xz, w0)"
    "reader = tar_NewReader env xz"
  with r show "WalkTarXz env path (Some cb) w
                 = Some (Some err, calls @ [header], file_Close env file w3)"
    by (simp add: WalkTarXz_def deferred_def)
next
  assume o: "zip_OpenReader env zpath z = (Inr (zr, pre @ f # post), z0)"
    and p: "WalkZip_range (Some zcb) pre [] z0 = (None, zcalls, z1)"
    and c: "zcb f z1 = (Some zerr, z2)"
  from WalkZip_range_calls [OF p] have zc: "zcalls = pre" by simp
  have "WalkZip_range (Some zcb) (pre @ f # post) [] z0 = (Some zerr, pre @ [f], z2)"
    using WalkZip_range_append [OF p, of "f # post"] c zc by simp
  with o show "WalkZip env zpath (Some zcb) z = (Some zerr, pre @ [f], zip_Close env zr z2)"
    by (simp add: WalkZip_def)
qed

text \<open>
  Claim C7 in the sample world: the callback fails on the second of three entries.
\<close>

theorem callback_error_stops_walk_witness:
  "WalkTar sampleEnv ''testdata/sample.tar'' (Some failOnText) 0
     = Some (Some (foreignError 9 ''an error in callback processing''), [''sample/'', ''sample/text/''], 2)
   \<and> WalkTarBzip2 sampleEnv ''testdata/sample.tar.bz2'' (Some failOnText) 0
     = Some (Some (foreignError 9 ''an error in callback processing''), [''sample/'', ''sample/text/''], 2)
   \<and> WalkTarGz sampleEnv ''testdata/sample.tar.gz'' (Some failOnText) 0
     = Some (Some (foreignError 9 ''an error in callback processing''), [''sample/'', ''sample/text/''], 2)
   \<and> WalkTarXz sampleEnv ''testdata/sample.tar.xz'' (Some failOnText) 0
     = Some (Some (foreignError 9 ''an error in callback processing''), [''sample/'', ''sample/text/''], 2)
   \<and> WalkZip sampleEnv ''testdata/sample.zip'' (Some zipFailOnText) 0
     = (Some (foreignError 9 ''an error in callback processing''), [''sample/'', ''sample/text/''], 0)"
proof -
  note t1 = callback_error_stops_walk
    [where env = sampleEnv and reader = 1 and cb = failOnText and k = "Suc 0" and ?w0.0 = 0
       and calls = "[''sample/'']" and ?w1.0 = 1 and header = "''sample/text/''" and ?w2.0 = 2
       and err = "foreignError 9 ''an error in callback processing''" and ?w3.0 = 2
       and w = 0 and wo = 0 and ?file = 1 and gz = 1 and xz = 1
       and zpath = "''testdata/sample.zip''" and z = 0 and zr = 3 and pre = "[''sample/'']"
       and f = "''sample/text/''" and post = "[''sample/text/lorem.txt'']" and ?z0.0 = 0
       and zcb = zipFailOnText and zcalls = "[''sample/'']" and ?z1.0 = 0
       and zerr = "foreignError 9 ''an error in callback processing''" and ?z2.0 = 0]
  note t2 = callback_error_stops_walk
    [where env = sampleEnv and reader = 2 and cb = failOnText and k = "Suc 0" and ?w0.0 = 0
       and calls = "[''sample/'']" and ?w1.0 = 1 and header = "''sample/text/''" and ?w2.0 = 2
       and err = "foreignError 9 ''an error in callback processing''" and ?w3.0 = 2
       and path = "''testdata/sample.tar.xz''"
       and w = 0 and wo = 0 and ?file = 2 and xz = 2]
  have a: "WalkTar sampleEnv ''testdata/sample.tar'' (Some failOnText) 0
     = Some (Some (foreignError 9 ''an error in callback processing''), [''sample/'', ''sample/text/''], 2)"
    using t1 [where path = "''testdata/sample.tar''"] by (simp add: sample_defs)
  have b: "WalkTarBzip2 sampleEnv ''testdata/sample.tar.bz2'' (Some failOnText) 0
     = Some (Some (foreignError 9 ''an error in callback processing''), [''sample/'', ''sample/text/''], 2)"
    using t1 [where path = "''testdata/sample.tar.bz2''"] by (simp add: sample_defs)
  have c: "WalkTarGz sampleEnv ''testdata/sample.tar.gz'' (Some failOnText) 0
     = Some (Some (foreignError 9 ''an error in callback processing''), [''sample/'', ''sample/text/''], 2)"
    using t1 [where path = "''testdata/sample.tar.gz''"] by (simp add: sample_defs)
  have d: "WalkTarXz sampleEnv ''testdata/sample.tar.xz'' (Some failOnText) 0
     = Some (Some (foreignError 9 ''an error in callback processing''), [''sample/'', ''sample/text/''], 2)"
    using t2 by (simp add: sample_defs)
  have e: "WalkZip sampleEnv ''testdata/sample.zip'' (Some zipFailOnText) 0
     = (Some (foreignError 9 ''an error in callback processing''), [''sample/'', ''sample/text/''], 0)"
    using t1 [where path = "''testdata/sample.tar''"] by (simp add: sample_defs)
  show ?thesis by (intro conjI a b c d e)
qed

text \<open>
  Claim C8. When the path cannot be opened, each of the five walkers returns the error
  made by \<open>fmt.Errorf\<close> from \<open>fmtErrArchiveOpen\<close> and the cause, whose message is the
  message of the cause after \<open>archive: failed to open archive: \<close>; the callback, whatever
  it is, has not been invoked.
\<close>

theorem open_failure_visits_nothing:
  "(os_Open env path w = (Inl cause, w') \<longrightarrow>
      WalkTar env path callback w = Some (Some (Errorf fmtErrArchiveOpen cause), [], w')
    \<and> WalkTarBzip2 env path callback w = Some (Some (Errorf fmtErrArchiveOpen cause), [], w')
    \<and> WalkTarGz env path callback w = Some (Some (Errorf fmtErrArchiveOpen cause), [], w')
    \<and> WalkTarXz env path callback w = Some (Some (Errorf fmtErrArchiveOpen cause), [], w'))
   \<and> (zip_OpenReader env path z = (Inl cause, z') \<longrightarrow>
      WalkZip env path zcallback z = (Some (Errorf fmtErrArchiveOpen cause), [], z'))
   \<and> Error (Errorf fmtErrArchiveOpen cause) = ''archive: failed to open archive: '' @ Error cause"
  by (simp add: WalkTar_def WalkTarBzip2_def WalkTarGz_def WalkTarXz_def WalkZip_def
        Errorf_def Sprintf_fmtErrArchiveOpen)

text \<open>
  Claim C8 in the sample world, at the two paths that do not open.
\<close>

theorem open_failure_visits_nothing_witness:
  "WalkTar sampleEnv ''nonexistent.tar'' (Some failOnText) 0
     = Some (Some (fmtError ''archive: failed to open archive: open nonexistent.tar: no such file or directory''), [], 0)
   \<and> WalkTarBzip2 sampleEnv ''nonexistent.tar'' (Some failOnText) 0
     = Some (Some (fmtError ''archive: failed to open archive: open nonexistent.tar: no such file or directory''), [], 0)
   \<and> WalkTarGz sampleEnv ''nonexistent.tar'' (Some failOnText) 0
     = Some (Some (fmtError ''archive: failed to open archive: open nonexistent.tar: no such file or directory''), [], 0)
   \<and> WalkTarXz sampleEnv ''nonexistent.tar'' (Some failOnText) 0
     = Some (Some (fmtError ''archive: failed to open archive: open nonexistent.tar: no such file or directory''), [], 0)
   \<and> WalkZip sampleEnv ''nonexistent.zip'' (Some zipFailOnText) 0
     = (Some (fmtError ''archive: failed to open archive: open nonexistent.zip: no such file or directory''), [], 0)"
proof -
  have o: "os_Open sampleEnv ''nonexistent.tar'' 0
             = (Inl (foreignError 1 ''open nonexistent.tar: no such file or directory''), 0)"
    by (simp add: sampleEnv_def)
  have z: "zip_OpenReader sampleEnv ''nonexistent.zip'' 0
             = (Inl (foreignError 1 ''open nonexistent.zip: no such file or directory''), 0)"
    by (simp add: sampleEnv_def)
  have m1: "Errorf fmtErrArchiveOpen (foreignError 1 ''open nonexistent.tar: no such file or directory'')
      = fmtError ''archive: failed to open archive: open nonexistent.tar: no such file or directory''"
    by (simp add: Errorf_def Sprintf_fmtErrArchiveOpen)
  have m2: "Errorf fmtErrArchiveOpen (foreignError 1 ''open nonexistent.zip: no such file or directory'')
      = fmtError ''archive: failed to open archive: open nonexistent.zip: no such file or directory''"
    by (simp add: Errorf_def Sprintf_fmtErrArchiveOpen)
  note t1 = open_failure_visits_nothing
    [where env = sampleEnv and path = "''nonexistent.tar''" and w = 0 and w' = 0
       and cause = "foreignError 1 ''open nonexistent.tar: no such file or directory''"
       and callback = "Some failOnText", THEN conjunct1, THEN mp, OF o, unfolded m1]
  note t2 = open_failure_visits_nothing
    [where env = sampleEnv and path = "''nonexistent.zip''" and z = 0 and z' = 0
       and cause = "foreignError 1 ''open nonexistent.zip: no such file or directory''"
       and zcallback = "Some zipFailOnText", THEN conjunct2, THEN conjunct1, THEN mp, OF z,
       unfolded m2]
  show ?thesis
    by (intro conjI t1 [THEN conjunct1] t1 [THEN conjunct2, THEN conjunct1]
          t1 [THEN conjunct2, THEN conjunct2, THEN conjunct1]
          t1 [THEN conjunct2, THEN conjunct2, THEN conjunct2] t2)
qed

text \<open>
  Claim C9. With a \<open>nil\<close> callback: when the reader yields \<open>k\<close> headers and then an
  error \<open>e\<close>, \<open>readTar\<close> reads them all, invokes nothing, and returns \<open>nil\<close> if \<open>e\<close>
  is \<open>io.EOF\<close> and \<open>e\<close> itself otherwise; so do the four tar walkers. \<open>WalkZip\<close>
  ranges over all the entries, invokes nothing and returns \<open>nil\<close>.
\<close>

theorem nil_callback_walks_to_end:
  "(tar_entries env reader k w0 = Some (headers, w1) \<and> tar_Next env reader w1 = (Inl e, w2)
    \<longrightarrow> readTar env reader None ([], w0) = Some (if e = EOF then None else Some e, [], w2)
      \<and> (os_Open env path w = (Inr file, w0) \<and> reader = tar_NewReader env file
           \<longrightarrow> WalkTar env path None w
                 = Some (if e = EOF then None else Some e, [], file_Close env file w2))
      \<and> (os_Open env path w = (Inr file, w0)
           \<and> reader = tar_NewReader env (bzip2_NewReader env file)
           \<longrightarrow> WalkTarBzip2 env path None w
                 = Some (if e = EOF then None else Some e, [], file_Close env file w2))
      \<and> (os_Open env path w = (Inr file, wo) \<and> gzip_NewReader env file wo = (Inr gz, w0)
           \<and> reader = tar_NewReader env gz
           \<longrightarrow> WalkTarGz env path None w
                 = Some (if e = EOF then None else Some e, [],
                         file_Close env file (gzip_Close env gz w2)))
      \<and> (os_Open env path w = (Inr file, wo) \<and> xz_NewReader env file wo = (Inr xz, w0)
           \<and> reader = tar_NewReader env xz
           \<longrightarrow> WalkTarXz env path None w
                 = Some (if e = EOF then None else Some e, [], file_Close env file w2)))
   \<and> (zip_OpenReader env zpath z = (Inr (zr, files), z0)
    \<longrightarrow> WalkZip env zpath None z = (None, [], zip_Close env zr z0))"
proof (intro conjI impI; (elim conjE)?)
  assume "tar_entries env reader k w0 = Some (headers, w1)"
    "tar_Next env reader w1 = (Inl e, w2)"
  then show "readTar env reader None ([], w0) = Some (if e = EOF then None else Some e, [], w2)"
    by (rule readTar_nil_callback)
next
  assume "tar_entries env reader k w0 = Some (headers, w1)"
    "tar_Next env reader w1 = (Inl e, w2)"
  then have r: "readTar env reader None ([], w0)
                  = Some (if e = EOF then None else Some e, [], w2)"
    by (rule readTar_nil_callback)
  assume "os_Open env path w = (Inr file, w0)" "reader = tar_NewReader env file"
  with r show "WalkTar env path None w
                 = Some (if e = EOF then None else Some e, [], file_Close env file w2)"
    by (simp add: WalkTar_def deferred_def)
next
  assume "tar_entries env reader k w0 = Some (headers, w1)"
    "tar_Next env reader w1 = (Inl e, w2)"
  then have r: "readTar env reader None ([], w0)
                  = Some (if e = EOF then None else Some e, [], w2)"
    by (rule readTar_nil_callback)
  assume "os_Open env path w = (Inr file, w0)"
    "reader = tar_NewReader env (bzip2_NewReader env file)"
  with r show "WalkTarBzip2 env path None w
                 = Some (if e = EOF then None else Some e, [], file_Close env file w2)"
    by (simp add: WalkTarBzip2_def deferred_def)
next
  assume "tar_entries env reader k w0 = Some (headers, w1)"
    "tar_Next env reader w1 = (Inl e, w2)"
  then have r: "readTar env reader None ([], w0)
                  = Some (if e = EOF then None else Some e, [], w2)"
    by (rule readTar_nil_callback)
  assume "os_Open env path w = (Inr file, wo)" "gzip_NewReader env file wo = (Inr gz, w0)"
    "reader = tar_NewReader env gz"
  with r show "WalkTarGz env path None w
                 = Some (if e = EOF then None else Some e, [],
                         file_Close env file (gzip_Close env gz w2))"
    by (simp add: WalkTarGz_def deferred_def)
next
  assume "tar_entries env reader k w0 = Some (headers, w1)"
    "tar_Next env reader w1 = (Inl e, w2)"
  then have r: "readTar env reader None ([], w0)
                  = Some (if e = EOF then None else Some e, [], w2)"
    by (rule readTar_nil_callback)
  assume "os_Open env path w = (Inr file, wo)" "xz_NewReader env file wo = (Inr xz, w0)"
    "reader = tar_NewReader env xz"
  with r show "WalkTarXz env path None w
                 = Some (if e = EOF then None else Some e, [], file_Close env file w2)"
    by (simp add: WalkTarXz_def deferred_def)
next
  assume "zip_OpenReader env zpath z = (Inr (zr, files), z0)"
  then show "WalkZip env zpath None z = (None, [], zip_Close env zr z0)"
    by (simp add: WalkZip_def WalkZip_range_nil_callback)
qed

text \<open>
  Claim C9 in the sample world: three entries and the end of the archive, and an
  archive whose first header does not decode.
\<close>

theorem nil_callback_walks_to_end_witness:
  "WalkTar sampleEnv ''testdata/sample.tar'' None 0 = Some (None, [], 3)
   \<and> WalkTarBzip2 sampleEnv ''testdata/sample.tar.bz2'' None 0 = Some (None, [], 3)
   \<and> WalkTarGz sampleEnv ''testdata/sample.tar.gz'' None 0 = Some (None, [], 3)
   \<and> WalkTarXz sampleEnv ''testdata/sample.tar.xz'' None 0 = Some (None, [], 3)
   \<and> WalkZip sampleEnv ''testdata/sample.zip'' None 0 = (None, [], 0)
   \<and> WalkTar sampleEnv ''testdata/invalid.tar'' None 0
       = Some (Some (foreignError 7 ''archive/tar: invalid tar header''), [], 0)"
proof -
  note t3 = nil_callback_walks_to_end
    [where env = sampleEnv and reader = 6 and k = 0 and ?w0.0 = 0
       and headers = "[]" and ?w1.0 = 0
       and e = "foreignError 7 ''archive/tar: invalid tar header''" and ?w2.0 = 0
       and path = "''testdata/invalid.tar''" and w = 0 and ?file = 6]
  have g: "WalkTar sampleEnv ''testdata/invalid.tar'' None 0
       = Some (Some (foreignError 7 ''archive/tar: invalid tar header''), [], 0)"
    using t3 by (simp add: sample_defs)
  note t1 = nil_callback_walks_to_end
    [where env = sampleEnv and reader = 1 and k = "Suc (Suc (Suc 0))" and ?w0.0 = 0
       and headers = sampleEntries and ?w1.0 = 3 and e = EOF and ?w2.0 = 3
       and w = 0 and wo = 0 and ?file = 1 and gz = 1 and xz = 1
       and zpath = "''testdata/sample.zip''" and z = 0 and zr = 3 and files = sampleEntries
       and ?z0.0 = 0]
  note t2 = nil_callback_walks_to_end
    [where env = sampleEnv and reader = 2 and k = "Suc (Suc (Suc 0))" and ?w0.0 = 0
       and headers = sampleEntries and ?w1.0 = 3 and e = EOF and ?w2.0 = 3
       and path = "''testdata/sample.tar.xz''"
       and w = 0 and wo = 0 and ?file = 2 and xz = 2]
  have a: "WalkTar sampleEnv ''testdata/sample.tar'' None 0 = Some (None, [], 3)"
    using t1 [where path = "''testdata/sample.tar''"] by (simp add: sample_defs)
  have b: "WalkTarBzip2 sampleEnv ''testdata/sample.tar.bz2'' None 0 = Some (None, [], 3)"
    using t1 [where path = "''testdata/sample.tar.bz2''"] by (simp add: sample_defs)
  have c: "WalkTarGz sampleEnv ''testdata/sample.tar.gz'' None 0 = Some (None, [], 3)"
    using t1 [where path = "''testdata/sample.tar.gz''"] by (simp add: sample_defs)
  have d: "WalkTarXz sampleEnv ''testdata/sample.tar.xz'' None 0 = Some (None, [], 3)"
    using t2 by (simp add: sample_defs)
  have e: "WalkZip sampleEnv ''testdata/sample.zip'' None 0 = (None, [], 0)"
    using t1 [where path = "''testdata/sample.tar''"] by (simp add: sample_defs)
  show ?thesis by (intro conjI a b c d e g)
qed

text \<open>
  Claim C10. When the file opens and \<open>gzip.NewReader\<close> (\<open>xz.NewReader\<close>) rejects it,
  \<open>WalkTarGz\<close> (\<open>WalkTarXz\<close>) returns the error made from \<open>fmtErrNewGzReader\<close>
  (\<open>fmtErrNewXzReader\<close>) and the cause, without invoking the callback. Its message
  starts with \<open>archive: failed to gz reader: \<close> (\<open>archive: failed to xz reader: \<close>), and
  it differs from every error of a failed open, whatever the causes.
\<close>

theorem decoder_failure_distinct_from_open_failure:
  "(os_Open env path w = (Inr file, w0) \<and> gzip_NewReader env file w0 = (Inl cause, w1)
    \<longrightarrow> WalkTarGz env path callback w
          = Some (Some (Errorf fmtErrNewGzReader cause), [], file_Close env file w1))
   \<and> (os_Open env path w = (Inr file, w0) \<and> xz_NewReader env file w0 = (Inl cause, w1)
    \<longrightarrow> WalkTarXz env path callback w
          = Some (Some (Errorf fmtErrNewXzReader cause), [], file_Close env file w1))
   \<and> Error (Errorf fmtErrNewGzReader cause) = ''archive: failed to gz reader: '' @ Error cause
   \<and> Error (Errorf fmtErrNewXzReader cause) = ''archive: failed to xz reader: '' @ Error cause
   \<and> Errorf fmtErrNewGzReader cause \<noteq> Errorf fmtErrArchiveOpen cause'
   \<and> Errorf fmtErrNewXzReader cause \<noteq> Errorf fmtErrArchiveOpen cause'"
  by (simp add: WalkTarGz_def WalkTarXz_def deferred_def Errorf_def
        Sprintf_fmtErrArchiveOpen Sprintf_fmtErrNewGzReader Sprintf_fmtErrNewXzReader)

text \<open>
  Claim C10 in the sample world: each walker on the other one's archive.
\<close>

theorem decoder_failure_distinct_from_open_failure_witness:
  "WalkTarGz sampleEnv ''testdata/sample.tar.xz'' (Some failOnText) 0
     = Some (Some (fmtError ''archive: failed to gz reader: gzip: invalid header''), [], 0)
   \<and> WalkTarXz sampleEnv ''testdata/sample.tar.gz'' (Some failOnText) 0
     = Some (Some (fmtError ''archive: failed to xz reader: xz: file format not recognized''), [], 0)"
proof -
  note t1 = decoder_failure_distinct_from_open_failure
    [where env = sampleEnv and path = "''testdata/sample.tar.xz''" and w = 0 and ?file = 2
       and ?w0.0 = 0 and cause = "foreignError 4 ''gzip: invalid header''" and ?w1.0 = 0
       and callback = "Some failOnText"]
  note t2 = decoder_failure_distinct_from_open_failure
    [where env = sampleEnv and path = "''testdata/sample.tar.gz''" and w = 0 and ?file = 1
       and ?w0.0 = 0 and cause = "foreignError 5 ''xz: file format not recognized''"
       and ?w1.0 = 0 and callback = "Some failOnText"]
  have a: "WalkTarGz sampleEnv ''testdata/sample.tar.xz'' (Some failOnText) 0
     = Some (Some (fmtError ''archive: failed to gz reader: gzip: invalid header''), [], 0)"
    using t1 by (simp add: sample_defs Errorf_def Sprintf_fmtErrNewGzReader)
  have b: "WalkTarXz sampleEnv ''testdata/sample.tar.gz'' (Some failOnText) 0
     = Some (Some (fmtError ''archive: failed to xz reader: xz: file format not recognized''), [], 0)"
    using t2 by (simp add: sample_defs Errorf_def Sprintf_fmtErrNewXzReader)
  show ?thesis by (intro conjI a b)
qed

lemma DetermineType_range_table: "snd (DetermineType_range tim f order) = tim"
  by (induction order) (auto simp: Let_def split: option.splits)

lemma exec_table: "exec env c (tim, w) = Some (tim', w') \<Longrightarrow> tim' = tim"
  by (cases c)
     (auto simp: DetermineType_def DetermineType_range_table split: option.splits prod.splits)

lemma run_table: "run env cs (tim, w) = Some (tim', w') \<Longrightarrow> tim' = tim"
proof (induction cs arbitrary: w)
  case Nil
  then show ?case by simp
next
  case (Cons c cs)
  then obtain t1 w1 where e: "exec env c (tim, w) = Some (t1, w1)"
    and r: "run env cs (t1, w1) = Some (tim', w')"
    by (auto split: option.splits)
  from exec_table [OF e] r Cons.IH show ?case by simp
qed

lemma sample_walk:
  "WalkTar sampleEnv ''testdata/sample.tar'' None 0 = Some (None, [], 3)"
proof -
  have "readTar sampleEnv 1 None ([], 0) = Some (if EOF = EOF then None else Some EOF, [], 3)"
    by (rule readTar_nil_callback [where k = "Suc (Suc (Suc 0))" and headers = sampleEntries
          and ?w1.0 = 3])
       (simp_all add: sample_defs)
  then show ?thesis by (simp add: WalkTar_def deferred_def sampleEnv_def)
qed

text \<open>
  Claim C6. No call changes \<open>typeInfoMap\<close>: after any call, and after any sequence of
  calls started from the table that \<open>init\<close> builds, the table is the one before.
  \<open>init\<close> builds the same table with exactly the five keys, whatever the variable
  held.
\<close>

theorem typeInfoMap_never_mutated:
  "(exec env c (tim, w) = Some (tim', w') \<longrightarrow> tim' = tim)
   \<and> (run env cs (init old, w) = Some (tim'', w'') \<longrightarrow> tim'' = init old)
   \<and> init old = init Map.empty
   \<and> dom (init old) = {Tar, TarBz2, TarGz, TarXz, Zip}"
  using exec_table [of env c tim w tim' w'] run_table [of env cs "init old" w tim'' w'']
  by (auto simp: dom_init init_def)

text \<open>
  Claim C6 in the sample world, for a call of \<open>DetermineType\<close> and for a sequence of
  three calls.
\<close>

theorem typeInfoMap_never_mutated_witness:
  "exec sampleEnv (CallDetermineType [Zip, Tar, TarGz, TarBz2, TarXz] ''foo.zip'') (init Map.empty, 0)
     = Some (init Map.empty, 0)
   \<and> run sampleEnv
        [CallDetermineType [Zip, Tar, TarGz, TarBz2, TarXz] ''foo.TGZ'',
         CallWalkTar ''testdata/sample.tar'' None,
         CallWalkZip ''testdata/sample.zip'' (Some zipFailOnText)]
        (init Map.empty, 0)
     = Some (init Map.empty, 3)"
proof -
  let ?c = "CallDetermineType [Zip, Tar, TarGz, TarBz2, TarXz] ''foo.zip''"
  let ?cs = "[CallDetermineType [Zip, Tar, TarGz, TarBz2, TarXz] ''foo.TGZ'',
         CallWalkTar ''testdata/sample.tar'' None,
         CallWalkZip ''testdata/sample.zip'' (Some zipFailOnText)]"
  let ?t1 = "snd (DetermineType (init Map.empty) [Zip, Tar, TarGz, TarBz2, TarXz] ''foo.zip'')"
  let ?t2 = "snd (DetermineType (init Map.empty) [Zip, Tar, TarGz, TarBz2, TarXz] ''foo.TGZ'')"
  have e: "exec sampleEnv ?c (init Map.empty, 0) = Some (?t1, 0)"
    by simp
  have r: "run sampleEnv ?cs (init Map.empty, 0) = Some (?t2, 3)"
    by (simp add: sample_walk) (simp add: WalkZip_def sample_defs)
  note t = typeInfoMap_never_mutated
    [where env = sampleEnv and c = ?c and tim = "init Map.empty" and w = 0 and tim' = ?t1
       and w' = 0 and cs = ?cs and old = Map.empty and tim'' = ?t2 and w'' = 3]
  from t e have "?t1 = init Map.empty" by blast
  moreover from t r have "?t2 = init Map.empty" by blast
  ultimately show ?thesis using e r by simp
qed

end
